theory Spec2Isabelle
  imports Main "HOL-Library.AList" "HOL-Library.Char_ord" "HOL-Library.List_Lexorder"
begin

section \<open>The remote zx client (package rzx)\<close>

text \<open>
  A shallow embedding of the remote file-system client: address completion, the dial
  cache with \<open>Dial\<close> and \<open>Redial\<close>, the tree directory, and the request envelopes that
  run one call on the mux and report through a result channel.
\<close>

subsection \<open>Strings\<close>

text \<open>
  Go strings are byte sequences; \<open>string\<close> is a list of 8-bit characters, compared
  byte by byte (the lexicographic order of lists over the order of character codes).
\<close>

fun HasPrefix :: "string \<Rightarrow> string \<Rightarrow> bool" where
  "HasPrefix s [] = True"
| "HasPrefix [] (p # ps) = False"
| "HasPrefix (c # cs) (p # ps) = (c = p \<and> HasPrefix cs ps)"

text \<open>\<open>strings.Contains(s, sub)\<close>: \<open>sub\<close> occurs in \<open>s\<close> as a contiguous run.\<close>

fun Contains :: "string \<Rightarrow> string \<Rightarrow> bool" where
  "Contains [] sub = (sub = [])"
| "Contains (c # cs) sub = (HasPrefix (c # cs) sub \<or> Contains cs sub)"

text \<open>
  \<open>strings.Split(s, sep)\<close> for a separator of one byte: the pieces between the
  separators, in order; a string with \<open>n\<close> separators gives \<open>n + 1\<close> pieces, the empty
  string gives one empty piece.
\<close>

fun Split :: "string \<Rightarrow> char \<Rightarrow> string list" where
  "Split [] sep = [[]]"
| "Split (c # cs) sep =
     (if c = sep then [] # Split cs sep
      else (case Split cs sep of [] \<Rightarrow> [[c]] | t # ts \<Rightarrow> (c # t) # ts))"

text \<open>\<open>strings.LastIndexByte(s, c)\<close>; Go's \<open>-1\<close> is \<open>None\<close>.\<close>

fun LastIndexByte :: "string \<Rightarrow> char \<Rightarrow> nat option" where
  "LastIndexByte [] c = None"
| "LastIndexByte (x # xs) c =
     (case LastIndexByte xs c of
        Some i \<Rightarrow> Some (Suc i)
      | None \<Rightarrow> if x = c then Some 0 else None)"

subsection \<open>Address completion\<close>

definition FillAddr :: "string \<Rightarrow> string" where
  "FillAddr addr =
     (let toks = Split addr (CHR ''!'') in
      if length toks = 1 then ''tcp!'' @ toks ! 0 @ ''!zx!main''
      else if length toks = 2 then ''tcp!'' @ toks ! 0 @ ''!'' @ toks ! 1 @ ''!main''
      else if length toks = 3 then addr @ ''!main''
      else addr)"

text \<open>\<open>splitaddr\<close> panics on an address with no \<open>!\<close>: the result \<open>None\<close>.\<close>

definition splitaddr :: "string \<Rightarrow> (string \<times> string) option" where
  "splitaddr addr =
     (case LastIndexByte addr (CHR ''!'') of
        None \<Rightarrow> None
      | Some n \<Rightarrow> Some (take n addr, drop (n + 1) addr))"

subsection \<open>Errors, messages and the values on a call\<close>

text \<open>
  An error value is the sentinel \<open>ErrBadMsg\<close> or any other error, kept by its text;
  Go's nil error is \<open>None\<close> of \<open>error option\<close>.
\<close>

datatype error = ErrBadMsg | Err string

type_synonym dir = "(string \<times> string) list"

type_synonym bytes = "char list"

text \<open>\<open>d[k]\<close> on a \<open>zx.Dir\<close> (a map from strings to strings): a missing key reads as the empty string.\<close>

definition dir_get :: "dir \<Rightarrow> string \<Rightarrow> string" where
  "dir_get d k = (case map_of d k of None \<Rightarrow> [] | Some v \<Rightarrow> v)"

datatype op = Ttrees | Tstat | Twstat | Tremove | Tremoveall | Tmove | Tlink
  | Tget | Tput | Tfind | Tfindget

record Msg =
  Op :: op
  MFsys :: string
  Path :: string
  To :: string
  MD :: dir
  Off :: int
  Count :: int
  Pred :: string
  Spref :: string
  Dpref :: string
  Depth :: int

text \<open>A message literal \<open>&Msg{Op: o, ...}\<close>: the fields it does not name are zero.\<close>

definition Msg0 :: "op \<Rightarrow> Msg" where
  "Msg0 opc = \<lparr>Op = opc, MFsys = [], Path = [], To = [], MD = [], Off = 0, Count = 0,
     Pred = [], Spref = [], Dpref = [], Depth = 0\<rparr>"

text \<open>
  The dynamic values of type \<open>face{}\<close> that travel on a call: the nil interface, a
  string, a directory entry, a byte chunk, a request message, or a value of any other
  type.
\<close>

datatype face = Nil | StrV string | DirV dir | BytesV bytes | MsgV Msg | OtherV nat

subsection \<open>Channels with a close reason\<close>

text \<open>
  Modelled from the spec: the channel operations of the dialect the client is written
  in (\<open>close(c, err)\<close>, \<open>cerror(c)\<close>, a send that reports whether it was taken) are
  not among the sources. Either end may close a channel, with a reason; the first close
  decides the reason, which stays readable; a send on a closed channel is refused and
  a receive on a closed, drained channel reports the closure.

  A channel is seen from the task that runs the envelope. \<open>queue\<close> holds the values in
  transit, oldest first. The far side of a channel this task sends on is scripted by
  \<open>takes\<close> and \<open>hup\<close>: it takes that many further values and then closes the channel
  with that reason. \<open>closes\<close> logs the reasons of the close calls this task made on the
  channel, in order, whether or not they took effect.

  A far side that neither takes nor closes is not scripted. On such a side the task
  would wait in its send: on the outbound half, or on a result channel whose buffer is
  full. Where a statement below says that an envelope ends, each send it makes is
  taken or refused by hypothesis, or is the first send on a result channel with a
  buffer of one, which never waits.
\<close>

record 'a chan =
  queue :: "'a list"
  isclosed :: bool
  cerr :: "error option"
  takes :: nat
  hup :: "error option"
  closes :: "error option list"

datatype 'a run = Done 'a | Blocked | Panicked

definition make_chan :: "nat \<Rightarrow> error option \<Rightarrow> 'a chan" where
  "make_chan n e = \<lparr>queue = [], isclosed = False, cerr = None, takes = n, hup = e, closes = []\<rparr>"

definition close_chan :: "error option \<Rightarrow> 'a chan \<Rightarrow> 'a chan" where
  "close_chan e c =
     (if isclosed c then c\<lparr>closes := closes c @ [e]\<rparr>
      else c\<lparr>isclosed := True, cerr := e, closes := closes c @ [e]\<rparr>)"

definition cerror :: "'a chan \<Rightarrow> error option" where
  "cerror c = cerr c"

definition send :: "'a \<Rightarrow> 'a chan \<Rightarrow> bool \<times> 'a chan" where
  "send v c =
     (if isclosed c then (False, c)
      else if takes c = 0 then (False, c\<lparr>isclosed := True, cerr := hup c\<rparr>)
      else (True, c\<lparr>queue := queue c @ [v], takes := takes c - 1\<rparr>))"

text \<open>A receive: the oldest value, or \<open>None\<close> once the channel is closed and drained;
  on an open, empty channel the task waits for ever.\<close>

definition recv :: "'a chan \<Rightarrow> ('a option \<times> 'a chan) run" where
  "recv c =
     (case queue c of
        x # xs \<Rightarrow> Done (Some x, c\<lparr>queue := xs\<rparr>)
      | [] \<Rightarrow> if isclosed c then Done (None, c) else Blocked)"

text \<open>A call of the mux: the inbound and the outbound half.\<close>

record call =
  In :: "face chan"
  Out :: "face chan"

subsection \<open>The client handle\<close>

text \<open>
  Pointers are addresses: the mux, the authentication and TLS contexts, the
  close-wait channel and the map of known trees are referred to by number, nil is
  \<open>None\<close>. The debug flags only steer printing and are left out, but for \<open>Verb\<close> and
  the tag.
\<close>

record Fs =
  Tag :: string
  Verb :: bool
  addr :: string
  raddr :: string
  tc :: "nat option"
  ai :: "nat option"
  trees :: "nat option"
  fsys :: string
  mux :: "nat option"
  closed :: bool
  closewc :: nat

text \<open>\<open>fs.m.Rpc()\<close>: a nil mux is a nil dereference; otherwise the mux hands out the call.\<close>

definition Rpc :: "Fs \<Rightarrow> call \<Rightarrow> call run" where
  "Rpc fs c = (case mux fs of None \<Rightarrow> Panicked | Some m \<Rightarrow> Done c)"

subsection \<open>Request envelopes\<close>

text \<open>
  Each envelope makes its result channel \<open>rc\<close>, returns it at once and runs its body
  as a task of its own. The model runs the body to its end and gives the final state
  of the result channel and of the two halves of the call; the caller's side of \<open>rc\<close>
  is scripted by the channel's \<open>takes\<close> and \<open>hup\<close>.
\<close>

record 'a ends =
  rc :: "'a chan"
  cin :: "face chan"
  cout :: "face chan"

text \<open>
  The reply of a call that answers with one directory entry (the tail of \<open>dircall\<close> and
  of \<open>Put\<close>): one receive, then the inbound close reason; an entry is passed on to the
  result channel, anything else without a reason is a bad message; both channels are
  closed with the reason.
\<close>

definition await_dir :: "dir chan \<Rightarrow> face chan \<Rightarrow> (dir chan \<times> face chan) run" where
  "await_dir rc0 inn0 =
     (case recv inn0 of
        Panicked \<Rightarrow> Panicked
      | Blocked \<Rightarrow> Blocked
      | Done (x, inn) \<Rightarrow>
          let err = cerror inn in
          if err = None then
            (case x of
               Some (DirV d) \<Rightarrow>
                 let rc1 = snd (send d rc0) in
                 Done (close_chan err rc1, close_chan err inn)
             | _ \<Rightarrow>
                 let err = Some ErrBadMsg in
                 Done (close_chan err rc0, close_chan err inn))
          else Done (close_chan err rc0, close_chan err inn))"




definition errcall :: "Fs \<Rightarrow> call \<Rightarrow> nat \<Rightarrow> error option \<Rightarrow> Msg \<Rightarrow> (error option) ends run" where
  "errcall fs c0 n e m =
     (let rc0 = make_chan n e in
      case Rpc fs c0 of
        Panicked \<Rightarrow> Panicked
      | Blocked \<Rightarrow> Blocked
      | Done c \<Rightarrow>
          (case send (MsgV m) (Out c) of
             (False, out) \<Rightarrow>
               let err = cerror out in
               Done \<lparr>rc = rc0, cin = close_chan err (In c), cout = out\<rparr>
           | (True, out) \<Rightarrow>
               let out = close_chan None out in
               (case recv (In c) of
                  Panicked \<Rightarrow> Panicked
                | Blocked \<Rightarrow> Blocked
                | Done (x, inn) \<Rightarrow>
                    let err = cerror inn;
                        inn = close_chan err inn;
                        rc1 = snd (send err rc0)
                    in Done \<lparr>rc = close_chan err rc1, cin = inn, cout = out\<rparr>)))"

definition Remove :: "Fs \<Rightarrow> call \<Rightarrow> nat \<Rightarrow> error option \<Rightarrow> string \<Rightarrow> (error option) ends run" where
  "Remove fs c n e p = errcall fs c n e ((Msg0 Tremove)\<lparr>MFsys := fsys fs, Path := p\<rparr>)"

definition RemoveAll :: "Fs \<Rightarrow> call \<Rightarrow> nat \<Rightarrow> error option \<Rightarrow> string \<Rightarrow> (error option) ends run" where
  "RemoveAll fs c n e p = errcall fs c n e ((Msg0 Tremoveall)\<lparr>MFsys := fsys fs, Path := p\<rparr>)"

definition Move :: "Fs \<Rightarrow> call \<Rightarrow> nat \<Rightarrow> error option \<Rightarrow> string \<Rightarrow> string \<Rightarrow> (error option) ends run" where
  "Move fs c n e from to =
     errcall fs c n e ((Msg0 Tmove)\<lparr>MFsys := fsys fs, Path := from, To := to\<rparr>)"

definition Link :: "Fs \<Rightarrow> call \<Rightarrow> nat \<Rightarrow> error option \<Rightarrow> string \<Rightarrow> string \<Rightarrow> (error option) ends run" where
  "Link fs c n e oldp newp =
     errcall fs c n e ((Msg0 Tlink)\<lparr>MFsys := fsys fs, Path := newp, To := oldp\<rparr>)"



text \<open>
  \<open>Put\<close>. The variable \<open>dc\<close> is rebound to a channel made and closed on the spot when
  the caller gave none or the entry is a directory; \<open>dcv\<close> is the channel the variable
  denotes at the end and \<open>caller_dc\<close> the channel the caller supplied, as it is then.
\<close>

record put_ends = "dir ends" +
  dcv :: "bytes chan"
  caller_dc :: "bytes chan option"

fun put_range :: "bytes list \<Rightarrow> bytes chan \<Rightarrow> face chan \<Rightarrow> (bool \<times> bytes chan \<times> face chan) run" where
  "put_range [] dc out = (if isclosed dc then Done (True, dc, out) else Blocked)"
| "put_range (b # bs) dc0 out0 =
     (let dc = dc0\<lparr>queue := bs\<rparr> in
      case send (BytesV b) out0 of
        (True, out) \<Rightarrow> put_range bs dc out
      | (False, out) \<Rightarrow> Done (False, dc, out))"

text \<open>The reply of \<open>Put\<close>, once the outbound half is closed (from \<open>x := <-c.In\<close> on).\<close>

definition put_reply :: "dir chan \<Rightarrow> face chan \<Rightarrow> face chan \<Rightarrow> bytes chan \<Rightarrow> bytes chan option \<Rightarrow> put_ends run" where
  "put_reply rc0 inn0 out dc cdc =
     (case await_dir rc0 inn0 of
        Panicked \<Rightarrow> Panicked
      | Blocked \<Rightarrow> Blocked
      | Done (rc1, inn) \<Rightarrow>
          Done \<lparr>rc = rc1, cin = inn, cout = out, dcv = dc, caller_dc = cdc\<rparr>)"

definition Put :: "Fs \<Rightarrow> call \<Rightarrow> nat \<Rightarrow> error option \<Rightarrow> string \<Rightarrow> dir \<Rightarrow> int \<Rightarrow> bytes chan option \<Rightarrow> put_ends run" where
  "Put fs c0 n e p d off dc0 =
     (let rc0 = make_chan n e in
      case Rpc fs c0 of
        Panicked \<Rightarrow> Panicked
      | Blocked \<Rightarrow> Blocked
      | Done c \<Rightarrow>
          let isdir = (dir_get d ''type'' = ''d'');
              fresh = (dc0 = None \<or> isdir);
              dc1 = (case dc0 of
                       None \<Rightarrow> close_chan None (make_chan 0 None)
                     | Some ch \<Rightarrow> if isdir then close_chan None (make_chan 0 None) else ch);
              caller = (\<lambda>dc. if fresh then dc0 else Some dc);
              m = (Msg0 Tput)\<lparr>MFsys := fsys fs, Path := p, MD := d, Off := off\<rparr>
          in
          (case send (MsgV m) (Out c) of
             (False, out) \<Rightarrow>
               let err = cerror out in
               Done \<lparr>rc = rc0, cin = close_chan err (In c), cout = out,
                     dcv = dc1, caller_dc = caller dc1\<rparr>
           | (True, out1) \<Rightarrow>
               if isdir then put_reply rc0 (In c) (close_chan None out1) dc1 (caller dc1)
               else
                 (case put_range (queue dc1) dc1 out1 of
                    Panicked \<Rightarrow> Panicked
                  | Blocked \<Rightarrow> Blocked
                  | Done (False, dc2, out) \<Rightarrow>
                      let err = cerror out;
                          dc = close_chan err dc2
                      in Done \<lparr>rc = close_chan err rc0, cin = close_chan err (In c), cout = out,
                               dcv = dc, caller_dc = caller dc\<rparr>
                  | Done (True, dc, out2) \<Rightarrow>
                      let err = cerror dc;
                          out = close_chan err out2
                      in
                      if err \<noteq> None then
                        Done \<lparr>rc = close_chan err rc0, cin = close_chan err (In c), cout = out,
                              dcv = dc, caller_dc = caller dc\<rparr>
                      else put_reply rc0 (In c) out dc (caller dc))))"





subsection \<open>What the far side of a channel does next\<close>

text \<open>\<open>accepts c\<close>: the next send on \<open>c\<close> is taken. \<open>ready c\<close>: a receive on \<open>c\<close> returns.\<close>

definition accepts :: "'a chan \<Rightarrow> bool" where
  "accepts c = (\<not> isclosed c \<and> 0 < takes c)"

definition ready :: "'a chan \<Rightarrow> bool" where
  "ready c = (queue c \<noteq> [] \<or> isclosed c)"





subsection \<open>The process: handles, the dial cache, muxes\<close>

text \<open>
  The heap of the process. \<open>handles\<close> holds the \<open>Fs\<close> structures and \<open>tmaps\<close> the maps of
  known trees, by address; \<open>dials\<close> is the package's cache of dialed handles;
  \<open>nextid\<close> is the next unused address. \<open>hungup\<close> is the set of muxes that are gone,
  \<open>watchers\<close> the tasks that wait for a mux to hang up, each with its mux, its handle
  and its close-wait channel, and \<open>wcclosed\<close> the close-wait channels that are closed.
  \<open>warns\<close> collects the warnings printed.
\<close>

record world =
  handles :: "nat \<Rightarrow> Fs option"
  tmaps :: "nat \<Rightarrow> (string \<times> bool) list"
  dials :: "string \<Rightarrow> nat option"
  nextid :: nat
  hungup :: "nat set"
  watchers :: "(nat \<times> nat \<times> nat) list"
  wcclosed :: "nat set"
  warns :: "string list"

definition dialed :: "string \<Rightarrow> world \<Rightarrow> nat option" where
  "dialed a w = dials w a"

text \<open>An assignment to fields of the handle at \<open>p\<close>.\<close>

definition upd :: "nat \<Rightarrow> (Fs \<Rightarrow> Fs) \<Rightarrow> world \<Rightarrow> world" where
  "upd p f w = w\<lparr>handles := (handles w)(p := map_option f (handles w p))\<rparr>"

text \<open>\<open>fs.trees[s]\<close>: a missing key, and any key of a nil map, reads as false.\<close>

definition tree_get :: "nat option \<Rightarrow> string \<Rightarrow> world \<Rightarrow> bool" where
  "tree_get r s w =
     (case r of
        None \<Rightarrow> False
      | Some a \<Rightarrow> (case map_of (tmaps w a) s of None \<Rightarrow> False | Some b \<Rightarrow> b))"

text \<open>\<open>fs.trees[s] = true\<close>: an assignment to an entry of a nil map panics.\<close>

definition tree_put :: "nat option \<Rightarrow> string \<Rightarrow> world \<Rightarrow> world run" where
  "tree_put r s w =
     (case r of
        None \<Rightarrow> Panicked
      | Some a \<Rightarrow> Done (w\<lparr>tmaps := (tmaps w)(a := AList.update s True (tmaps w a))\<rparr>))"

text \<open>
  The body of the watcher that \<open>Redial\<close> starts, from the hangup of its mux on: the
  handle is marked closed, the cache entry under its raw address goes, the close-wait
  channel is closed.
\<close>

definition watcher :: "nat \<times> nat \<times> nat \<Rightarrow> world \<Rightarrow> world" where
  "watcher t w =
     (case t of (m, q, cw) \<Rightarrow>
        let w1 = upd q (\<lambda>fs. fs\<lparr>closed := True\<rparr>) w;
            w2 = (case handles w1 q of
                    None \<Rightarrow> w1
                  | Some fs \<Rightarrow> w1\<lparr>dials := (dials w1)(raddr fs := None)\<rparr>)
        in w2\<lparr>wcclosed := insert cw (wcclosed w2), watchers := remove1 t (watchers w2)\<rparr>)"

text \<open>
  The mux \<open>m\<close> hangs up (its \<open>Close\<close>, or the peer is gone): the watchers of \<open>m\<close> run.
  A watcher first takes the lock of its handle: while the task \<open>holder\<close> is inside
  \<open>Redial\<close> on that handle, the watcher waits and does nothing yet.
\<close>

definition hangup :: "nat option \<Rightarrow> nat \<Rightarrow> world \<Rightarrow> world" where
  "hangup holder m w =
     fold watcher
       (filter (\<lambda>t. case t of (m', q, cw) \<Rightarrow> m' = m \<and> holder \<noteq> Some q) (watchers w))
       (w\<lparr>hungup := insert m (hungup w)\<rparr>)"

definition Close :: "nat \<Rightarrow> world \<Rightarrow> world run" where
  "Close p w =
     (case handles w p of
        None \<Rightarrow> Panicked
      | Some fs \<Rightarrow> (case mux fs of None \<Rightarrow> Panicked | Some m \<Rightarrow> Done (hangup None m w)))"

subsection \<open>The tree directory\<close>

fun trees_range :: "face list \<Rightarrow> face chan \<Rightarrow> nat option \<Rightarrow> world \<Rightarrow> (bool \<times> face chan \<times> world) run" where
  "trees_range [] inn r w = (if isclosed inn then Done (True, inn, w) else Blocked)"
| "trees_range (m # ms) inn0 r w =
     (let inn = inn0\<lparr>queue := ms\<rparr> in
      case m of
        StrV s \<Rightarrow>
          (case tree_put r s w of
             Panicked \<Rightarrow> Panicked
           | Blocked \<Rightarrow> Blocked
           | Done w1 \<Rightarrow> trees_range ms inn r w1)
      | _ \<Rightarrow> Done (False, close_chan (Some ErrBadMsg) inn, w))"

text \<open>\<open>getTrees\<close> on the handle at \<open>p\<close>, with the call its mux hands out: the error returned,
  the two halves of the call at the end, and the process.\<close>

definition getTrees :: "nat \<Rightarrow> call \<Rightarrow> world \<Rightarrow> (error option \<times> call \<times> world) run" where
  "getTrees p c0 w =
     (case handles w p of
        None \<Rightarrow> Panicked
      | Some fs \<Rightarrow>
          (case Rpc fs c0 of
             Panicked \<Rightarrow> Panicked
           | Blocked \<Rightarrow> Blocked
           | Done c \<Rightarrow>
               let m = (Msg0 Ttrees)\<lparr>MFsys := ''main''\<rparr> in
               (case send (MsgV m) (Out c) of
                  (False, out) \<Rightarrow>
                    let err = cerror out in
                    Done (err, \<lparr>In = close_chan err (In c), Out = out\<rparr>, w)
                | (True, out) \<Rightarrow>
                    let out = close_chan None out in
                    (case trees_range (queue (In c)) (In c) (trees fs) w of
                       Panicked \<Rightarrow> Panicked
                     | Blocked \<Rightarrow> Blocked
                     | Done (False, inn, w1) \<Rightarrow>
                         Done (Some ErrBadMsg, \<lparr>In = inn, Out = out\<rparr>, w1)
                     | Done (True, inn, w1) \<Rightarrow>
                         (case tree_put (trees fs) ''main'' w1 of
                            Panicked \<Rightarrow> Panicked
                          | Blocked \<Rightarrow> Blocked
                          | Done w2 \<Rightarrow> Done (cerror inn, \<lparr>In = inn, Out = out\<rparr>, w2))))))"

text \<open>
  \<open>Trees\<close>: the keys of the map, in the order the map yields them (the order of the
  association list), then sorted as \<open>sort.StringSlice\<close> sorts.
\<close>

definition Trees :: "Fs \<Rightarrow> world \<Rightarrow> string list" where
  "Trees fs w =
     (let ts = map fst (case trees fs of None \<Rightarrow> [] | Some a \<Rightarrow> tmaps w a)
      in sort ts)"

text \<open>\<open>Fsys\<close> on the handle at \<open>p\<close>: a new structure gets a copy of every field, then the name.\<close>

definition Fsys :: "nat \<Rightarrow> string \<Rightarrow> world \<Rightarrow> ((error + nat) \<times> world) run" where
  "Fsys p name w =
     (case handles w p of
        None \<Rightarrow> Panicked
      | Some fs \<Rightarrow>
          let nfs = nextid w;
              w1 = w\<lparr>handles := (handles w)(nfs \<mapsto> fs), nextid := nextid w + 1\<rparr>;
              w2 = upd nfs (\<lambda>x. x\<lparr>fsys := name\<rparr>) w1
          in
          if name = ''main'' \<or> tree_get (trees fs) name w2 then Done (Inr nfs, w2)
          else Done (Inl (Err (''no fsys '' @ [CHR 0x27] @ name @ [CHR 0x27])), w2))"

subsection \<open>Dial and Redial\<close>

text \<open>
  What the network answers during one \<open>Redial\<close>: the error of \<open>net.MuxDial\<close> (none: a
  new mux), the pair that \<open>auth.AtClient\<close> returns (the context, and the text of its
  error), and the call that the new mux hands out to \<open>getTrees\<close>.
\<close>

record netenv =
  muxdial :: "error option"
  atclient :: "nat option \<times> string option"
  treescall :: call


text \<open>\<open>dbg.Warn\<close>: the warning is printed.\<close>

definition Warn :: "string \<Rightarrow> world \<Rightarrow> world" where
  "Warn s w = w\<lparr>warns := warns w @ [s]\<rparr>"

text \<open>Lines 129 to 137: a handle that is not closed gives up its mux and waits for its watcher.\<close>

definition redial_close :: "nat \<Rightarrow> world \<Rightarrow> world run" where
  "redial_close p w =
     (case handles w p of
        None \<Rightarrow> Panicked
      | Some fs \<Rightarrow>
          if \<not> closed fs then
            (case (case mux fs of
                     None \<Rightarrow> Done w
                   | Some m \<Rightarrow>
                       let w1 = hangup (Some p) m w in
                       if closewc fs \<in> wcclosed w1 then Done w1 else Blocked) of
               Panicked \<Rightarrow> Panicked
             | Blocked \<Rightarrow> Blocked
             | Done w1 \<Rightarrow>
                 Done ((upd p (\<lambda>x. x\<lparr>ai := None, closed := True, closewc := nextid w1\<rparr>) w1)
                        \<lparr>nextid := nextid w1 + 1\<rparr>))
          else Done w)"

text \<open>Lines 151 to 181: the tree directory, the check of the selected tree, the cache, the watcher.\<close>

definition redial_trees :: "netenv \<Rightarrow> nat \<Rightarrow> nat \<Rightarrow> nat option \<Rightarrow> world \<Rightarrow> (error option \<times> world) run" where
  "redial_trees env p m a w =
     (let w1 = upd p (\<lambda>x. x\<lparr>ai := a, mux := Some m\<rparr>) w in
      case getTrees p (treescall env) w1 of
        Panicked \<Rightarrow> Panicked
      | Blocked \<Rightarrow> Blocked
      | Done (err, c, w2) \<Rightarrow>
          let w3 = upd p (\<lambda>x. x\<lparr>ai := None, mux := None\<rparr>) w2 in
          (case err of
             Some e \<Rightarrow> Done (Some e, hangup (Some p) m w3)
           | None \<Rightarrow>
               (case handles w3 p of
                  None \<Rightarrow> Panicked
                | Some fs \<Rightarrow>
                    if \<not> tree_get (trees fs) (fsys fs) w3 then
                      Done (Some (Err (''no fsys '' @ [CHR 0x27] @ fsys fs @ [CHR 0x27]
                                        @ '' found in server'')),
                            hangup (Some p) m w3)
                    else
                      let w4 = upd p (\<lambda>x. x\<lparr>ai := a, mux := Some m, closed := False\<rparr>) w3;
                          w5 = w4\<lparr>dials := (dials w4)(raddr fs \<mapsto> p)\<rparr>
                      in Done (None, w5\<lparr>watchers := watchers w5 @ [(m, p, closewc fs)]\<rparr>))))"

definition Redial :: "netenv \<Rightarrow> nat \<Rightarrow> world \<Rightarrow> (error option \<times> world) run" where
  "Redial env p w =
     (case redial_close p w of
        Panicked \<Rightarrow> Panicked
      | Blocked \<Rightarrow> Blocked
      | Done w1 \<Rightarrow>
          (case handles w1 p of
             None \<Rightarrow> Panicked
           | Some fs \<Rightarrow>
               (case muxdial env of
                  Some err \<Rightarrow> Done (Some err, w1)
                | None \<Rightarrow>
                    let m = nextid w1;
                        w2 = w1\<lparr>nextid := nextid w1 + 1\<rparr>
                    in
                    (case atclient env of
                       (a, Some txt) \<Rightarrow>
                         if \<not> Contains txt ''auth disabled'' then
                           Done (Some (Err (addr fs @ '': '' @ txt)), hangup (Some p) m w2)
                         else redial_trees env p m a (Warn (addr fs @ '': '' @ txt) w2)
                     | (a, None) \<Rightarrow> redial_trees env p m a w2))))"

definition Dial :: "netenv \<Rightarrow> string \<Rightarrow> nat list \<Rightarrow> world \<Rightarrow> ((error + nat) \<times> world) run" where
  "Dial env addr0 tlscfg w =
     (let tc0 = (case tlscfg of [] \<Rightarrow> None | t # ts \<Rightarrow> Some t);
          a = FillAddr addr0
      in
      case dialed a w of
        Some fs \<Rightarrow> Done (Inr fs, w)
      | None \<Rightarrow>
          (case splitaddr a of
             None \<Rightarrow> Panicked
           | Some (ad, tree) \<Rightarrow>
               let p = nextid w;
                   fs = \<lparr>Tag = ''rfs'', Verb = False, addr = ad, raddr = a, tc = tc0, ai = None,
                         trees = Some (nextid w + 1), fsys = tree, mux = None, closed = True,
                         closewc = nextid w + 2\<rparr>;
                   w1 = w\<lparr>handles := (handles w)(p \<mapsto> fs),
                          tmaps := (tmaps w)(nextid w + 1 := []),
                          nextid := nextid w + 3\<rparr>
               in
               (case Redial env p w1 of
                  Panicked \<Rightarrow> Panicked
                | Blocked \<Rightarrow> Blocked
                | Done (Some err, w2) \<Rightarrow> Done (Inl err, w2)
                | Done (None, w2) \<Rightarrow> Done (Inr p, w2))))"

text \<open>
  Addresses are handed out in order: every mux that a watcher waits for and every handle
  in the dial cache was allocated before, so lies below \<open>nextid\<close>.
\<close>

definition wf_world :: "world \<Rightarrow> bool" where
  "wf_world w = ((\<forall>t\<in>set (watchers w). fst t < nextid w)
     \<and> (\<forall>a q. dials w a = Some q \<longrightarrow> q < nextid w))"

subsection \<open>A process with one dialed handle\<close>

text \<open>
  The handle at address 0 is dialed to \<open>tcp!h!zx\<close> on the mux 2, with the tree \<open>main\<close>
  selected; its map of trees, at 1, knows \<open>work\<close> and \<open>main\<close>; its watcher waits
  with the close-wait channel 3.
\<close>

definition fs_main :: Fs where
  "fs_main = \<lparr>Tag = ''rfs'', Verb = False, addr = ''tcp!h!zx'', raddr = ''tcp!h!zx!main'',
     tc = None, ai = Some 5, trees = Some 1, fsys = ''main'', mux = Some 2, closed = False,
     closewc = 3\<rparr>"

definition w_dialed :: world where
  "w_dialed = \<lparr>handles = (\<lambda>q. None)(0 \<mapsto> fs_main),
     tmaps = (\<lambda>a. [])(1 := [(''work'', True), (''main'', True)]),
     dials = (\<lambda>a. None)(''tcp!h!zx!main'' \<mapsto> 0),
     nextid = 6, hungup = {}, watchers = [(2, 0, 3)], wcclosed = {}, warns = []\<rparr>"

text \<open>
  A handle as \<open>Dial\<close> makes it, at address 0, not yet dialed, with the mux 3 published
  for the tree directory; and calls for \<open>getTrees\<close>: one that lists \<open>work\<close> and then a
  value that is no string, one that lists \<open>work\<close> and ends with an i/o error.
\<close>

definition fs_new :: Fs where
  "fs_new = \<lparr>Tag = ''rfs'', Verb = False, addr = ''tcp!h!zx'', raddr = ''tcp!h!zx!main'',
     tc = None, ai = None, trees = Some 1, fsys = ''main'', mux = Some 3, closed = True,
     closewc = 2\<rparr>"

definition w_new :: world where
  "w_new = \<lparr>handles = (\<lambda>q. None)(0 \<mapsto> fs_new), tmaps = (\<lambda>a. []), dials = (\<lambda>a. None),
     nextid = 4, hungup = {}, watchers = [], wcclosed = {}, warns = []\<rparr>"

definition c_bad_reply :: call where
  "c_bad_reply = \<lparr>In = \<lparr>queue = [StrV ''work'', BytesV ''xyz''], isclosed = False,
            cerr = None, takes = 0, hup = None, closes = []\<rparr>,
     Out = make_chan 4 None\<rparr>"

definition c_trees_reply :: call where
  "c_trees_reply = \<lparr>In = \<lparr>queue = [StrV ''work''], isclosed = True,
            cerr = Some (Err ''i/o error''), takes = 0, hup = None, closes = []\<rparr>,
     Out = make_chan 4 None\<rparr>"

text \<open>
  Calls as the mux may hand them out: one whose outbound half is gone with an i/o
  error, one that answers with a directory entry, one that answers with an error; and
  a data channel of the caller with a chunk waiting.
\<close>

definition c_refused :: call where
  "c_refused = \<lparr>In = make_chan 0 None,
     Out = \<lparr>queue = [], isclosed = True, cerr = Some (Err ''i/o error''), takes = 0,
            hup = None, closes = []\<rparr>\<rparr>"

definition c_dir_reply :: call where
  "c_dir_reply = \<lparr>In = \<lparr>queue = [DirV [(''type'', ''d''), (''path'', ''/d'')]], isclosed = True,
            cerr = None, takes = 0, hup = None, closes = []\<rparr>,
     Out = make_chan 4 None\<rparr>"

definition c_err_reply :: call where
  "c_err_reply = \<lparr>In = \<lparr>queue = [], isclosed = True, cerr = Some (Err ''file not found''),
            takes = 0, hup = None, closes = []\<rparr>,
     Out = make_chan 4 None\<rparr>"

definition dc_pending :: "bytes chan" where
  "dc_pending = \<lparr>queue = [''data''], isclosed = False, cerr = None, takes = 0, hup = None,
     closes = []\<rparr>"





text \<open>
  What the network may answer to a dial: a server that serves \<open>work\<close> (and, by
  convention, \<open>main\<close>), with authentication passed, disabled, or failed; the process
  before any dial; and a handle as \<open>Dial\<close> makes it for the tree \<open>nosuch\<close>.
\<close>

definition c_trees_ok :: call where
  "c_trees_ok = \<lparr>In = \<lparr>queue = [StrV ''work''], isclosed = True, cerr = None, takes = 0,
            hup = None, closes = []\<rparr>,
     Out = make_chan 4 None\<rparr>"

definition env_ok :: netenv where
  "env_ok = \<lparr>muxdial = None, atclient = (Some 9, None), treescall = c_trees_ok\<rparr>"


definition env_authfail :: netenv where
  "env_authfail = \<lparr>muxdial = None, atclient = (None, Some ''bad key''),
     treescall = c_trees_ok\<rparr>"


definition w_empty :: world where
  "w_empty = \<lparr>handles = (\<lambda>q. None), tmaps = (\<lambda>a. []), dials = (\<lambda>a. None), nextid = 0,
     hungup = {}, watchers = [], wcclosed = {}, warns = []\<rparr>"

definition fs_nosuch :: Fs where
  "fs_nosuch = \<lparr>Tag = ''rfs'', Verb = False, addr = ''tcp!h!zx'', raddr = ''tcp!h!zx!nosuch'',
     tc = None, ai = None, trees = Some 1, fsys = ''nosuch'', mux = None, closed = True,
     closewc = 2\<rparr>"

definition w_nosuch :: world where
  "w_nosuch = \<lparr>handles = (\<lambda>q. None)(0 \<mapsto> fs_nosuch), tmaps = (\<lambda>a. []), dials = (\<lambda>a. None),
     nextid = 4, hungup = {}, watchers = [], wcclosed = {}, warns = []\<rparr>"

section \<open>Properties\<close>

subsection \<open>Address completion\<close>

lemma Split_nonempty: "Split s sep \<noteq> []"
  by (induction s) (auto split: list.splits)

lemma Split_no_sep: "sep \<notin> set h \<Longrightarrow> Split h sep = [h]"
  by (induction h) auto

lemma Split_token: "sep \<notin> set h \<Longrightarrow> Split (h @ sep # r) sep = h # Split r sep"
  by (induction h) auto

lemma length_Split: "length (Split s sep) = Suc (count_list s sep)"
  by (induction s) (auto simp: Split_nonempty split: list.splits)

text \<open>
  C5. \<open>FillAddr\<close> completes an address by the number of its tokens between \<open>!\<close>: one
  token \<open>h\<close> gives \<open>tcp!h!zx!main\<close>, two tokens \<open>h!p\<close> give \<open>tcp!h!p!main\<close>, three tokens
  \<open>n!h!p\<close> give \<open>n!h!p!main\<close>, and an address of four or more tokens is returned as it is.
\<close>

theorem FillAddr_by_tokens:
  "(CHR ''!'' \<notin> set h \<longrightarrow> FillAddr h = ''tcp!'' @ h @ ''!zx!main'')
   \<and> (CHR ''!'' \<notin> set h \<and> CHR ''!'' \<notin> set p \<longrightarrow>
        FillAddr (h @ ''!'' @ p) = ''tcp!'' @ h @ ''!'' @ p @ ''!main'')
   \<and> (CHR ''!'' \<notin> set n \<and> CHR ''!'' \<notin> set h \<and> CHR ''!'' \<notin> set p \<longrightarrow>
        FillAddr (n @ ''!'' @ h @ ''!'' @ p) = n @ ''!'' @ h @ ''!'' @ p @ ''!main'')
   \<and> (4 \<le> length (Split a (CHR ''!'')) \<longrightarrow> FillAddr a = a)"
  by (simp add: FillAddr_def Split_no_sep Split_token Let_def)

theorem FillAddr_by_tokens_witness:
  "FillAddr ''h'' = ''tcp!h!zx!main'' \<and> FillAddr ''h!p'' = ''tcp!h!p!main''
   \<and> FillAddr ''h!p!e'' = ''h!p!e!main'' \<and> FillAddr ''n!h!p!t!u'' = ''n!h!p!t!u''"
  using FillAddr_by_tokens [of "''h''" "''p''" "''h''" "''n!h!p!t!u''"]
    FillAddr_by_tokens [of "''p''" "''e''" "''h''" "''n!h!p!t!u''"]
  by simp

subsection \<open>The known trees\<close>

lemma sorted_wrt_less_sort:
  fixes xs :: "'a::linorder list"
  shows "distinct xs \<Longrightarrow> sorted_wrt (<) (sort xs)"
  by (simp add: strict_sorted_iff)

lemma tree_get_keys:
  assumes "\<forall>kv\<in>set al. snd kv"
  shows "(case map_of al s of None \<Rightarrow> False | Some b \<Rightarrow> b) = (s \<in> fst ` set al)"
proof (cases "map_of al s")
  case None
  then have "s \<notin> fst ` set al" by (simp add: map_of_eq_None_iff)
  with None show ?thesis by simp
next
  case (Some b)
  then have "(s, b) \<in> set al" by (rule map_of_SomeD)
  with assms Some show ?thesis by force
qed

lemma tree_get_tmaps: "tmaps w' = tmaps w \<Longrightarrow> tree_get r s w' = tree_get r s w"
  by (cases r) (simp_all add: tree_get_def)

lemma tree_get_simps:
  "tree_get r s (upd p f w) = tree_get r s w"
  "tree_get r s (w\<lparr>handles := h\<rparr>) = tree_get r s w"
  "tree_get r s (w\<lparr>dials := d\<rparr>) = tree_get r s w"
  "tree_get r s (w\<lparr>nextid := n\<rparr>) = tree_get r s w"
  "tree_get r s (w\<lparr>hungup := hs\<rparr>) = tree_get r s w"
  "tree_get r s (w\<lparr>watchers := ws\<rparr>) = tree_get r s w"
  "tree_get r s (w\<lparr>wcclosed := cs\<rparr>) = tree_get r s w"
  "tree_get r s (w\<lparr>warns := ms\<rparr>) = tree_get r s w"
  by (rule tree_get_tmaps, simp add: upd_def)+

text \<open>
  C10. \<open>Trees\<close> returns the members of the set of known trees and nothing else, in
  strictly ascending order of strings, so with no duplicates. The set is a map from
  names to booleans: each key occurs once in it, and only \<open>true\<close> is ever stored.
\<close>

theorem Trees_sorted_members:
  assumes "trees fs = Some a"
    and "distinct (map fst (tmaps w a))"
    and "\<forall>kv\<in>set (tmaps w a). snd kv"
  shows "sorted_wrt (<) (Trees fs w) \<and> set (Trees fs w) = {s. tree_get (trees fs) s w}"
  using assms tree_get_keys [OF assms(3)]
  by (auto simp: Trees_def tree_get_def sorted_wrt_less_sort)

theorem Trees_sorted_members_witness:
  "Trees fs_main w_dialed = [''main'', ''work'']
   \<and> sorted_wrt (<) (Trees fs_main w_dialed)
   \<and> set (Trees fs_main w_dialed) = {s. tree_get (trees fs_main) s w_dialed}"
proof -
  have t: "trees fs_main = Some 1"
    by (simp add: fs_main_def)
  have d: "distinct (map fst (tmaps w_dialed 1))"
    by (simp add: w_dialed_def)
  have v: "\<forall>kv\<in>set (tmaps w_dialed 1). snd kv"
    by (simp add: w_dialed_def)
  have "Trees fs_main w_dialed = [''main'', ''work'']"
    by (simp add: Trees_def fs_main_def w_dialed_def)
  with Trees_sorted_members [OF t d v] show ?thesis
    by simp
qed

text \<open>
  C7. \<open>Fsys(name)\<close> succeeds exactly when the name is \<open>main\<close> or a known tree. It then
  returns a new handle, a copy of the given one with the name as its selected tree (so
  with the same mux, authentication context and map of trees). Otherwise it returns the
  error \<open>no fsys '<name>'\<close> and no handle. Either way the given handle, every other
  handle, the maps of trees and the dial cache are as before.
\<close>

theorem Fsys_rebinds:
  assumes "handles w p = Some fs" and "p < nextid w"
  shows "\<exists>r w'. Fsys p name w = Done (r, w')
     \<and> ((\<exists>nfs. r = Inr nfs) \<longleftrightarrow> (name = ''main'' \<or> tree_get (trees fs) name w))
     \<and> (name = ''main'' \<or> tree_get (trees fs) name w \<longrightarrow>
          r = Inr (nextid w) \<and> handles w' (nextid w) = Some (fs\<lparr>fsys := name\<rparr>))
     \<and> (\<not> (name = ''main'' \<or> tree_get (trees fs) name w) \<longrightarrow>
          r = Inl (Err (''no fsys '' @ [CHR 0x27] @ name @ [CHR 0x27])))
     \<and> handles w' p = Some fs
     \<and> (\<forall>q. q \<noteq> nextid w \<longrightarrow> handles w' q = handles w q)
     \<and> tmaps w' = tmaps w \<and> dials w' = dials w \<and> hungup w' = hungup w
     \<and> watchers w' = watchers w \<and> wcclosed w' = wcclosed w"
  using assms by (auto simp: Fsys_def Let_def tree_get_simps) (simp_all add: upd_def)

theorem Fsys_rebinds_witness:
  "(\<exists>w'. Fsys 0 ''work'' w_dialed = Done (Inr 6, w')
      \<and> handles w' 6 = Some (fs_main\<lparr>fsys := ''work''\<rparr>) \<and> handles w' 0 = Some fs_main)
   \<and> (\<exists>w'. Fsys 0 ''nosuch'' w_dialed = Done (Inl (Err (''no fsys '' @ [CHR 0x27] @ ''nosuch'' @ [CHR 0x27])), w')
      \<and> handles w' 0 = Some fs_main)"
proof -
  have h: "handles w_dialed 0 = Some fs_main" and n: "0 < nextid w_dialed"
    by (simp_all add: w_dialed_def)
  have k: "tree_get (trees fs_main) ''work'' w_dialed"
    and u: "\<not> tree_get (trees fs_main) ''nosuch'' w_dialed"
    and i: "nextid w_dialed = 6"
    by (simp_all add: tree_get_def fs_main_def w_dialed_def)
  from Fsys_rebinds [OF h n, of "''work''"] Fsys_rebinds [OF h n, of "''nosuch''"] k u i
  show ?thesis by auto
qed

subsection \<open>Channels\<close>

lemma send_accepts:
  "accepts c \<Longrightarrow> send v c = (True, c\<lparr>queue := queue c @ [v], takes := takes c - 1\<rparr>)"
  by (simp add: send_def accepts_def)

lemma send_refused:
  "\<not> accepts c \<Longrightarrow> \<exists>c'. send v c = (False, c') \<and> isclosed c' \<and> closes c' = closes c"
  by (auto simp: send_def accepts_def)

lemma accepts_make: "accepts (make_chan n e) = (0 < n)"
  by (simp add: accepts_def make_chan_def)


lemma recv_keeps:
  "recv c = Done (x, c') \<Longrightarrow> cerr c' = cerr c \<and> isclosed c' = isclosed c \<and> closes c' = closes c"
  by (auto simp: recv_def split: list.splits if_splits)

lemma close_chan_facts:
  "isclosed (close_chan x c)"
  "closes (close_chan x c) = closes c @ [x]"
  "\<not> isclosed c \<Longrightarrow> cerr (close_chan x c) = x"
  "isclosed c \<Longrightarrow> cerr (close_chan x c) = cerr c"
  "cerr (close_chan (cerr c) c) = cerr c"
  by (simp_all add: close_chan_def)


subsection \<open>Envelopes whose request is refused\<close>



subsection \<open>Envelopes whose request is taken\<close>

text \<open>
  Once the request is taken, an envelope that ends has closed its result channel: by
  one close call, or in \<open>Get\<close> and \<open>Find\<close> on a bad message by a second one after it,
  which changes nothing. The reason given is the close reason of the inbound half at
  the end or the bad-message error; in \<open>Put\<close> it may also be the reason for which a
  chunk was refused or the caller's data channel ended, which \<open>Put\<close> passes on to the
  inbound half as well.
\<close>

lemma await_dir_ready: "ready inn \<Longrightarrow> \<exists>rc1 inn1. await_dir rc0 inn = Done (rc1, inn1)"
  by (auto simp: await_dir_def recv_def ready_def Let_def split: list.splits option.splits face.splits)













lemma recv_ready:
  "ready c \<Longrightarrow> \<exists>x c'. recv c = Done (x, c') \<and> cerr c' = cerr c \<and> isclosed c' = isclosed c
      \<and> closes c' = closes c"
  by (auto simp: recv_def ready_def split: list.splits)

lemma errcall_accepted:
  assumes "mux fs \<noteq> None" and "accepts (Out c)" and "ready (In c)" and "0 < n"
  shows "\<exists>r. errcall fs c n e m = Done r \<and> queue (rc r) = [cerr (In c)] \<and> isclosed (rc r)
     \<and> cerr (rc r) = cerr (In c) \<and> closes (rc r) = [cerr (In c)]"
proof -
  from assms(3) obtain x inn where r: "recv (In c) = Done (x, inn)" and e: "cerr inn = cerr (In c)"
    using recv_ready by blast
  from assms(1) obtain mx where m: "mux fs = Some mx" by auto
  show ?thesis
    using assms(4) by (simp add: errcall_def Rpc_def m send_accepts assms(2) r e
        Let_def cerror_def accepts_make) (simp add: make_chan_def close_chan_def)
qed

text \<open>
  C9. For \<open>Remove\<close>, \<open>RemoveAll\<close>, \<open>Move\<close> and \<open>Link\<close>: when the outbound half takes the
  request, the inbound half answers or is closed, and the caller has not closed the
  result channel, the envelope ends; the result channel then holds exactly one value,
  the close reason of the inbound half (nil on success), and is closed, by one close
  call, with that same reason.
\<close>

theorem errcall_reports:
  assumes "mux fs \<noteq> None" and "accepts (Out c)" and "ready (In c)" and "0 < n"
  shows "\<forall>run \<in> {Remove fs c n e p, RemoveAll fs c n e p, Move fs c n e p q, Link fs c n e p q}.
     \<exists>r. run = Done r \<and> queue (rc r) = [cerr (In c)] \<and> isclosed (rc r)
       \<and> cerr (rc r) = cerr (In c) \<and> closes (rc r) = [cerr (In c)]"
  using errcall_accepted [OF assms]
  by (simp add: Remove_def RemoveAll_def Move_def Link_def)

theorem errcall_reports_witness:
  "map_run (\<lambda>r. (queue (rc r), isclosed (rc r), cerr (rc r), closes (rc r)))
     (Remove fs_main c_err_reply 1 None ''/x'')
   = Done ([Some (Err ''file not found'')], True, Some (Err ''file not found''),
       [Some (Err ''file not found'')])"
proof -
  have "mux fs_main \<noteq> None" "accepts (Out c_err_reply)" "ready (In c_err_reply)" "0 < (1::nat)"
    by (simp_all add: fs_main_def c_err_reply_def accepts_def ready_def make_chan_def)
  from errcall_reports [OF this, of None "''/x''" "''/y''"]
  show ?thesis
    by (auto simp: c_err_reply_def)
qed






















subsection \<open>Put on a directory\<close>

text \<open>
  C8, as the code has it. For a \<open>Put\<close> whose entry has type \<open>d\<close>, once the header is
  taken the outbound half is closed at once, with the header as the only message sent on
  it: no bytes of the caller's data channel are forwarded. The channel that \<open>Put\<close> closes
  on the spot is one it makes itself in place of the caller's; the caller's data
  channel, supplied or not, is left exactly as it was, neither read nor closed.
\<close>

theorem Put_dir_closes_outbound_only:
  assumes "mux fs \<noteq> None" and "dir_get d ''type'' = ''d''"
    and "accepts (Out c)" and "ready (In c)"
  shows "\<exists>r. Put fs c n e p d off dc = Done r
     \<and> caller_dc r = dc
     \<and> dcv r = close_chan None (make_chan 0 None)
     \<and> queue (cout r) = queue (Out c)
          @ [MsgV ((Msg0 Tput)\<lparr>MFsys := fsys fs, Path := p, MD := d, Off := off\<rparr>)]
     \<and> isclosed (cout r) \<and> closes (cout r) = closes (Out c) @ [None]"
proof -
  from assms(1) obtain mx where m: "mux fs = Some mx" by auto
  let ?out = "close_chan None (snd (send (MsgV ((Msg0 Tput)\<lparr>MFsys := fsys fs, Path := p, MD := d, Off := off\<rparr>)) (Out c)))"
  let ?dc = "close_chan None (make_chan 0 None) :: bytes chan"
  have p: "Put fs c n e p d off dc = put_reply (make_chan n e) (In c) ?out ?dc dc"
    by (auto simp: Put_def Rpc_def m Let_def send_accepts [OF assms(3)] assms(2) split: option.splits)
  from await_dir_ready [OF assms(4)] obtain rc1 inn1
    where "await_dir (make_chan n e) (In c) = Done (rc1, inn1)" by blast
  then have "put_reply (make_chan n e) (In c) ?out ?dc dc
      = Done \<lparr>rc = rc1, cin = inn1, cout = ?out, dcv = ?dc, caller_dc = dc\<rparr>"
    by (simp add: put_reply_def)
  with p show ?thesis
    by (simp add: send_accepts [OF assms(3)] close_chan_facts) (simp add: close_chan_def)
qed

theorem Put_dir_closes_outbound_only_witness:
  "map_run (\<lambda>r. (caller_dc r, queue (cout r), isclosed (cout r)))
     (Put fs_main c_dir_reply 1 None ''/d'' [(''type'', ''d'')] 7 (Some dc_pending))
   = Done (Some dc_pending,
       [MsgV ((Msg0 Tput)\<lparr>MFsys := ''main'', Path := ''/d'', MD := [(''type'', ''d'')], Off := 7\<rparr>)],
       True)"
proof -
  have "mux fs_main \<noteq> None" "dir_get [(''type'', ''d'')] ''type'' = ''d''"
    "accepts (Out c_dir_reply)" "ready (In c_dir_reply)"
    by (simp_all add: fs_main_def dir_get_def c_dir_reply_def accepts_def ready_def make_chan_def)
  from Put_dir_closes_outbound_only [OF this, of 1 None "''/d''" 7 "Some dc_pending"]
  show ?thesis
    by (auto simp: fs_main_def c_dir_reply_def make_chan_def)
qed

text \<open>
  C8 as stated fails: a caller's data channel with a chunk waiting is still open, with
  its chunk, after a \<open>Put\<close> of a directory has ended.
\<close>

theorem Put_dir_caller_dc_counterexample:
  "map_run caller_dc (Put fs_main c_dir_reply 1 None ''/d'' [(''type'', ''d'')] 0 (Some dc_pending))
     = Done (Some dc_pending)
   \<and> \<not> isclosed dc_pending \<and> closes dc_pending = [] \<and> queue dc_pending = [''data'']"
  by (simp add: Put_def Rpc_def fs_main_def c_dir_reply_def dc_pending_def dir_get_def Let_def
      send_def make_chan_def put_reply_def await_dir_def recv_def cerror_def close_chan_def)

subsection \<open>The tree directory\<close>

lemma tree_get_put:
  "tree_get (Some a) s (w\<lparr>tmaps := (tmaps w)(a := AList.update k True (tmaps w a))\<rparr>)
     = (s = k \<or> tree_get (Some a) s w)"
  by (auto simp: tree_get_def update_conv')

lemma trees_range_prefix:
  assumes "\<forall>m\<in>set pre. \<exists>s. m = StrV s"
  shows "\<exists>w'. trees_range (pre @ rest) inn (Some a) w = trees_range rest (inn\<lparr>queue := (if pre = [] then queue inn else rest)\<rparr>) (Some a) w'
     \<and> (\<forall>s. tree_get (Some a) s w' = (StrV s \<in> set pre \<or> tree_get (Some a) s w))
     \<and> w' = w\<lparr>tmaps := tmaps w'\<rparr>"
  using assms
proof (induction pre arbitrary: inn w)
  case Nil
  show ?case by (rule exI [of _ w]) simp
next
  case (Cons m pre)
  then obtain s where m: "m = StrV s" by auto
  let ?w1 = "w\<lparr>tmaps := (tmaps w)(a := AList.update s True (tmaps w a))\<rparr>"
  from Cons.prems have "\<forall>m\<in>set pre. \<exists>s. m = StrV s" by simp
  from Cons.IH [OF this, of "inn\<lparr>queue := pre @ rest\<rparr>" ?w1]
  obtain w' where
    1: "trees_range (pre @ rest) (inn\<lparr>queue := pre @ rest\<rparr>) (Some a) ?w1
        = trees_range rest (inn\<lparr>queue := rest\<rparr>) (Some a) w'"
    and 2: "\<forall>s'. tree_get (Some a) s' w' = (StrV s' \<in> set pre \<or> tree_get (Some a) s' ?w1)"
    and 3: "w' = ?w1\<lparr>tmaps := tmaps w'\<rparr>"
    by (auto split: if_splits)
  show ?case
  proof (rule exI [of _ w'], intro conjI)
    show "trees_range ((m # pre) @ rest) inn (Some a) w =
      trees_range rest (inn\<lparr>queue := if m # pre = [] then queue inn else rest\<rparr>) (Some a) w'"
      using 1 by (simp add: m tree_put_def Let_def)
    show "\<forall>s'. tree_get (Some a) s' w' = (StrV s' \<in> set (m # pre) \<or> tree_get (Some a) s' w)"
      using 2 by (auto simp: m tree_get_put)
    show "w' = w\<lparr>tmaps := tmaps w'\<rparr>"
      using 3 by (metis world.surjective world.update_convs(2))
  qed
qed

lemma trees_range_bad:
  "\<forall>s. x \<noteq> StrV s \<Longrightarrow>
     trees_range (x # rest) inn r w = Done (False, close_chan (Some ErrBadMsg) (inn\<lparr>queue := rest\<rparr>), w)"
  by (cases x) (simp_all add: Let_def)

lemma getTrees_read_all:
  assumes "handles w p = Some fs" and "mux fs \<noteq> None" and "trees fs = Some a"
    and "accepts (Out c)" and "isclosed (In c)" and "\<forall>m\<in>set (queue (In c)). \<exists>s. m = StrV s"
  shows "\<exists>c' w'. getTrees p c w = Done (cerr (In c), c', w')
     \<and> tree_get (trees fs) ''main'' w'
     \<and> (\<forall>s. tree_get (trees fs) s w' =
           (s = ''main'' \<or> StrV s \<in> set (queue (In c)) \<or> tree_get (trees fs) s w))"
proof -
  from assms(2) obtain mx where m: "mux fs = Some mx" by auto
  from trees_range_prefix [OF assms(6), of "[]" "In c" a w] obtain w' where
    1: "trees_range (queue (In c)) (In c) (Some a) w
        = trees_range [] ((In c)\<lparr>queue := (if queue (In c) = [] then queue (In c) else [])\<rparr>) (Some a) w'"
    and 2: "\<forall>s. tree_get (Some a) s w' = (StrV s \<in> set (queue (In c)) \<or> tree_get (Some a) s w)"
    by auto
  let ?w2 = "w'\<lparr>tmaps := (tmaps w')(a := AList.update ''main'' True (tmaps w' a))\<rparr>"
  have 3: "\<forall>s. tree_get (Some a) s ?w2 =
      (s = ''main'' \<or> StrV s \<in> set (queue (In c)) \<or> tree_get (Some a) s w)"
    using 2 by (simp add: tree_get_put)
  have "\<exists>c'. getTrees p c w = Done (cerr (In c), c', ?w2)"
    using assms(4,5)
    by (simp add: getTrees_def assms(1,3) Rpc_def m Let_def send_accepts 1 tree_put_def cerror_def)
  with 3 show ?thesis
    by (auto simp: assms(3))
qed

lemma getTrees_refused:
  assumes "handles w p = Some fs" and "mux fs \<noteq> None" and "\<not> accepts (Out c)"
  shows "\<exists>err c'. getTrees p c w = Done (err, c', w)"
proof -
  from assms(2) obtain mx where m: "mux fs = Some mx" by auto
  from send_refused [OF assms(3), of "MsgV ((Msg0 Ttrees)\<lparr>MFsys := ''main''\<rparr>)"]
  obtain out where "send (MsgV ((Msg0 Ttrees)\<lparr>MFsys := ''main''\<rparr>)) (Out c) = (False, out)"
    by blast
  then show ?thesis
    by (simp add: getTrees_def assms(1) Rpc_def m Let_def)
qed

lemma getTrees_bad:
  assumes "handles w p = Some fs" and "mux fs \<noteq> None" and "trees fs = Some a"
    and "accepts (Out c) \<and> queue (In c) = pre @ x # rest
          \<and> (\<forall>m\<in>set pre. \<exists>s. m = StrV s) \<and> (\<forall>s. x \<noteq> StrV s)"
  shows "\<exists>c' w'. getTrees p c w = Done (Some ErrBadMsg, c', w')
     \<and> (\<forall>s. tree_get (trees fs) s w' = (StrV s \<in> set pre \<or> tree_get (trees fs) s w))"
proof -
  from assms(2) obtain mx where m: "mux fs = Some mx" by auto
  from assms(4) have "\<forall>m\<in>set pre. \<exists>s. m = StrV s" by simp
  from trees_range_prefix [OF this, of "x # rest" "In c" a w] obtain w' where
    1: "trees_range (pre @ x # rest) (In c) (Some a) w
        = trees_range (x # rest) ((In c)\<lparr>queue := (if pre = [] then queue (In c) else x # rest)\<rparr>) (Some a) w'"
    and 2: "\<forall>s. tree_get (Some a) s w' = (StrV s \<in> set pre \<or> tree_get (Some a) s w)"
    by auto
  have "\<exists>c'. getTrees p c w = Done (Some ErrBadMsg, c', w')"
    using assms(4)
    by (simp add: getTrees_def assms(1,3) Rpc_def m Let_def send_accepts 1 trees_range_bad
        del: trees_range.simps)
  with 2 show ?thesis
    by (auto simp: assms(3))
qed

text \<open>
  C6, as the code has it. \<open>getTrees\<close> inserts \<open>main\<close> whenever it reads the replies to
  their end: every reply a string and the inbound half closed. It does so whatever the
  server listed and also when the inbound half ended with an error, which \<open>getTrees\<close>
  then returns. When the outbound half refuses the request it returns with the set of
  trees, and all the rest, as they were; at a reply that is not a string it returns the
  bad-message error, with the names listed before that reply inserted and nothing else.
\<close>

theorem getTrees_inserts_main:
  assumes "handles w p = Some fs" and "mux fs \<noteq> None" and "trees fs = Some a"
  shows "(accepts (Out c) \<and> isclosed (In c) \<and> (\<forall>m\<in>set (queue (In c)). \<exists>s. m = StrV s) \<longrightarrow>
           (\<exists>c' w'. getTrees p c w = Done (cerr (In c), c', w')
              \<and> tree_get (trees fs) ''main'' w'
              \<and> (\<forall>s. tree_get (trees fs) s w' =
                    (s = ''main'' \<or> StrV s \<in> set (queue (In c)) \<or> tree_get (trees fs) s w))))
     \<and> (\<not> accepts (Out c) \<longrightarrow> (\<exists>err c'. getTrees p c w = Done (err, c', w)))
     \<and> (accepts (Out c) \<and> queue (In c) = pre @ x # rest
          \<and> (\<forall>m\<in>set pre. \<exists>s. m = StrV s) \<and> (\<forall>s. x \<noteq> StrV s) \<longrightarrow>
           (\<exists>c' w'. getTrees p c w = Done (Some ErrBadMsg, c', w')
              \<and> (\<forall>s. tree_get (trees fs) s w' =
                    (StrV s \<in> set pre \<or> tree_get (trees fs) s w))))"
  using getTrees_read_all [OF assms, of c] getTrees_refused [OF assms(1,2), of c]
    getTrees_bad [OF assms, of c pre x rest]
  by blast

theorem getTrees_inserts_main_witness:
  "map_run (\<lambda>(err, c', w'). (err, tree_get (Some 1) ''main'' w', tree_get (Some 1) ''work'' w'))
     (getTrees 0 c_trees_reply w_new)
   = Done (Some (Err ''i/o error''), True, True)"
proof -
  have h: "handles w_new 0 = Some fs_new" "mux fs_new \<noteq> None" "trees fs_new = Some 1"
    by (simp_all add: w_new_def fs_new_def)
  have c: "accepts (Out c_trees_reply) \<and> isclosed (In c_trees_reply)
      \<and> (\<forall>m\<in>set (queue (In c_trees_reply)). \<exists>s. m = StrV s)"
    by (simp add: c_trees_reply_def accepts_def make_chan_def)
  have "accepts (Out c_trees_reply) \<and> isclosed (In c_trees_reply)
      \<and> (\<forall>m\<in>set (queue (In c_trees_reply)). \<exists>s. m = StrV s) \<longrightarrow>
      (\<exists>c' w'. getTrees 0 c_trees_reply w_new = Done (cerr (In c_trees_reply), c', w')
              \<and> tree_get (trees fs_new) ''main'' w'
              \<and> (\<forall>s. tree_get (trees fs_new) s w' =
                    (s = ''main'' \<or> StrV s \<in> set (queue (In c_trees_reply)) \<or> tree_get (trees fs_new) s w_new)))"
    using getTrees_inserts_main [OF h, of c_trees_reply] by (rule conjunct1)
  with c obtain c' w' where
    1: "getTrees 0 c_trees_reply w_new = Done (cerr (In c_trees_reply), c', w')"
    and 2: "tree_get (trees fs_new) ''main'' w'"
    and 3: "\<forall>s. tree_get (trees fs_new) s w' =
                    (s = ''main'' \<or> StrV s \<in> set (queue (In c_trees_reply)) \<or> tree_get (trees fs_new) s w_new)"
    by blast
  from 3 have "tree_get (trees fs_new) ''work'' w'"
    by (simp add: c_trees_reply_def)
  with 1 2 show ?thesis
    by (simp add: c_trees_reply_def fs_new_def)
qed

text \<open>
  C6 as stated fails: after a \<open>getTrees\<close> whose request is refused, and after one that
  meets a reply that is not a string, \<open>main\<close> is not among the known trees of a
  handle that did not know it before.
\<close>

theorem getTrees_main_counterexample:
  "getTrees 0 c_refused w_new
     = Done (Some (Err ''i/o error''),
         \<lparr>In = close_chan (Some (Err ''i/o error'')) (In c_refused), Out = Out c_refused\<rparr>,
         w_new)
   \<and> \<not> tree_get (trees fs_new) ''main'' w_new
   \<and> getTrees 0 c_bad_reply w_new
     = Done (Some ErrBadMsg,
         \<lparr>In = close_chan (Some ErrBadMsg) ((In c_bad_reply)\<lparr>queue := []\<rparr>),
          Out = close_chan None (snd (send (MsgV ((Msg0 Ttrees)\<lparr>MFsys := ''main''\<rparr>)) (Out c_bad_reply)))\<rparr>,
         w_new\<lparr>tmaps := (tmaps w_new)(1 := [(''work'', True)])\<rparr>)
   \<and> \<not> tree_get (trees fs_new) ''main'' (w_new\<lparr>tmaps := (tmaps w_new)(1 := [(''work'', True)])\<rparr>)"
  by (simp add: getTrees_def w_new_def fs_new_def c_refused_def c_bad_reply_def Rpc_def Let_def
      send_def make_chan_def cerror_def tree_get_def tree_put_def close_chan_def)

subsection \<open>Redial\<close>

lemma trees_range_world:
  "trees_range ms inn r w = Done (b, inn', w') \<Longrightarrow> \<exists>t. w' = w\<lparr>tmaps := t\<rparr>"
proof (induction ms arbitrary: inn w)
  case Nil
  then show ?case by (auto split: if_splits intro: exI [of _ "tmaps w"])
next
  case (Cons m ms)
  show ?case
  proof (cases m)
    case (StrV s)
    with Cons.prems obtain a where r: "r = Some a"
      and "trees_range ms (inn\<lparr>queue := ms\<rparr>) r
             (w\<lparr>tmaps := (tmaps w)(a := AList.update s True (tmaps w a))\<rparr>) = Done (b, inn', w')"
      by (auto simp: Let_def tree_put_def split: option.splits)
    from Cons.IH [OF this(2)] show ?thesis by auto
  qed (use Cons.prems in \<open>auto simp: Let_def intro: exI [of _ "tmaps w"]\<close>)
qed

lemma getTrees_world:
  assumes "getTrees p c w = Done (err, c', w')"
  shows "\<exists>t. w' = w\<lparr>tmaps := t\<rparr>"
proof -
  from assms obtain fs where fs: "handles w p = Some fs"
    by (auto simp: getTrees_def split: option.splits)
  from assms fs obtain mx where m: "mux fs = Some mx"
    by (auto simp: getTrees_def Rpc_def split: option.splits)
  let ?s = "send (MsgV ((Msg0 Ttrees)\<lparr>MFsys := ''main''\<rparr>)) (Out c)"
  show ?thesis
  proof (cases "fst ?s")
    case False
    with assms show ?thesis
      by (auto simp: getTrees_def fs Rpc_def m Let_def split: prod.splits intro: exI [of _ "tmaps w"])
  next
    case True
    with assms obtain b inn w1 where
      tr: "trees_range (queue (In c)) (In c) (trees fs) w = Done (b, inn, w1)"
      by (auto simp: getTrees_def fs Rpc_def m Let_def split: prod.splits run.splits)
    from trees_range_world [OF tr] obtain t where w1: "w1 = w\<lparr>tmaps := t\<rparr>" by blast
    from assms True tr show ?thesis
      by (auto simp: getTrees_def fs Rpc_def m Let_def tree_put_def w1
          split: prod.splits run.splits option.splits bool.splits)
  qed
qed

lemma hangup_no_watcher:
  "\<forall>t\<in>set (watchers w). fst t \<noteq> m \<Longrightarrow> hangup h m w = w\<lparr>hungup := insert m (hungup w)\<rparr>"
proof -
  assume "\<forall>t\<in>set (watchers w). fst t \<noteq> m"
  then have "filter (\<lambda>t. case t of (m', q, cw) \<Rightarrow> m' = m \<and> h \<noteq> Some q) (watchers w) = []"
    by (auto simp: filter_empty_conv)
  then show ?thesis by (simp add: hangup_def)
qed

lemma getTrees_handle:
  "getTrees p c w = Done (err, c', w') \<Longrightarrow> handles w p \<noteq> None"
  by (auto simp: getTrees_def split: option.splits)

lemma redial_trees_ok:
  assumes "redial_trees env p m a w = Done (None, w')"
  shows "\<exists>fs. handles w p = Some fs
     \<and> handles w' = (handles w)(p \<mapsto> fs\<lparr>ai := a, mux := Some m, closed := False\<rparr>)
     \<and> dials w' = (dials w)(raddr fs \<mapsto> p)
     \<and> watchers w' = watchers w @ [(m, p, closewc fs)]
     \<and> nextid w' = nextid w \<and> hungup w' = hungup w \<and> wcclosed w' = wcclosed w
     \<and> warns w' = warns w
     \<and> tree_get (trees fs) (fsys fs) w'"
proof -
  let ?w1 = "upd p (\<lambda>x. x\<lparr>ai := a, mux := Some m\<rparr>) w"
  from assms obtain err c w2 where g: "getTrees p (treescall env) ?w1 = Done (err, c, w2)"
    by (auto simp: redial_trees_def Let_def split: run.splits)
  from getTrees_handle [OF g] obtain fs where fs: "handles w p = Some fs"
    by (auto simp: upd_def)
  from getTrees_world [OF g] obtain t where w2: "w2 = ?w1\<lparr>tmaps := t\<rparr>" by blast
  from assms g show ?thesis
    by (auto simp: redial_trees_def Let_def w2 fs upd_def tree_get_simps
        split: option.splits if_splits)
qed

lemma redial_trees_fail:
  assumes "redial_trees env p m a w = Done (Some e, w')"
    and "\<forall>t\<in>set (watchers w). fst t \<noteq> m"
  shows "\<exists>fs. handles w p = Some fs
     \<and> handles w' = (handles w)(p \<mapsto> fs\<lparr>ai := None, mux := None\<rparr>)
     \<and> dials w' = dials w \<and> watchers w' = watchers w
     \<and> nextid w' = nextid w \<and> hungup w' = insert m (hungup w) \<and> wcclosed w' = wcclosed w
     \<and> warns w' = warns w"
proof -
  let ?w1 = "upd p (\<lambda>x. x\<lparr>ai := a, mux := Some m\<rparr>) w"
  from assms obtain err c w2 where g: "getTrees p (treescall env) ?w1 = Done (err, c, w2)"
    by (auto simp: redial_trees_def Let_def split: run.splits)
  from getTrees_handle [OF g] obtain fs where fs: "handles w p = Some fs"
    by (auto simp: upd_def)
  from getTrees_world [OF g] obtain t where w2: "w2 = ?w1\<lparr>tmaps := t\<rparr>" by blast
  have h: "hangup (Some p) m (upd p (\<lambda>x. x\<lparr>ai := None, mux := None\<rparr>) w2)
      = (upd p (\<lambda>x. x\<lparr>ai := None, mux := None\<rparr>) w2)\<lparr>hungup := insert m (hungup w)\<rparr>"
    using assms(2) by (subst hangup_no_watcher) (simp_all add: w2 upd_def)
  from assms(1) g show ?thesis
    by (auto simp: redial_trees_def Let_def h split: option.splits if_splits)
      (auto simp: w2 fs upd_def)
qed

lemma Redial_closed:
  assumes "handles w p = Some fs" and "closed fs"
  shows "Redial env p w =
     (case muxdial env of
        Some err \<Rightarrow> Done (Some err, w)
      | None \<Rightarrow>
          (case atclient env of
             (a, Some txt) \<Rightarrow>
               if \<not> Contains txt ''auth disabled'' then
                 Done (Some (Err (addr fs @ '': '' @ txt)),
                       hangup (Some p) (nextid w) (w\<lparr>nextid := nextid w + 1\<rparr>))
               else redial_trees env p (nextid w) a
                      (Warn (addr fs @ '': '' @ txt) (w\<lparr>nextid := nextid w + 1\<rparr>))
           | (a, None) \<Rightarrow> redial_trees env p (nextid w) a (w\<lparr>nextid := nextid w + 1\<rparr>)))"
  using assms by (simp add: Redial_def redial_close_def Let_def split: option.splits prod.splits)

lemmas run_defs = Redial_def redial_close_def redial_trees_def getTrees_def Rpc_def upd_def
  Let_def send_def make_chan_def close_chan_def cerror_def tree_put_def tree_get_def hangup_def
  Warn_def





lemma Warn_simps:
  "handles (Warn s w) = handles w" "tmaps (Warn s w) = tmaps w" "dials (Warn s w) = dials w"
  "nextid (Warn s w) = nextid w" "hungup (Warn s w) = hungup w"
  "watchers (Warn s w) = watchers w" "wcclosed (Warn s w) = wcclosed w"
  "warns (Warn s w) = warns w @ [s]"
  by (simp_all add: Warn_def)















lemma redial_trees_missing:
  assumes fs: "handles w p = Some fs" and tr: "trees fs = Some tr"
    and nw: "\<forall>t\<in>set (watchers w). fst t \<noteq> m"
    and c: "accepts (Out (treescall env))" "isclosed (In (treescall env))"
      "cerr (In (treescall env)) = None"
      "\<forall>m\<in>set (queue (In (treescall env))). \<exists>s. m = StrV s"
    and miss: "fsys fs \<noteq> ''main''" "StrV (fsys fs) \<notin> set (queue (In (treescall env)))"
      "\<not> tree_get (trees fs) (fsys fs) w"
  shows "\<exists>w'. redial_trees env p m a w =
       Done (Some (Err (''no fsys '' @ [CHR 0x27] @ fsys fs @ [CHR 0x27] @ '' found in server'')), w')
     \<and> m \<in> hungup w' \<and> dials w' = dials w \<and> nextid w' = nextid w \<and> warns w' = warns w
     \<and> handles w' = (handles w)(p \<mapsto> fs\<lparr>ai := None, mux := None\<rparr>)"
proof -
  let ?fs1 = "fs\<lparr>ai := a, mux := Some m\<rparr>"
  let ?w1 = "upd p (\<lambda>x. x\<lparr>ai := a, mux := Some m\<rparr>) w"
  have h1: "handles ?w1 p = Some ?fs1" "mux ?fs1 \<noteq> None" "trees ?fs1 = Some tr"
    by (simp_all add: upd_def fs tr)
  from getTrees_read_all [OF h1 c(1,2,4)] obtain c' w2 where
    g: "getTrees p (treescall env) ?w1 = Done (None, c', w2)"
    and k: "\<forall>s. tree_get (Some tr) s w2 =
           (s = ''main'' \<or> StrV s \<in> set (queue (In (treescall env))) \<or> tree_get (Some tr) s ?w1)"
    by (auto simp: c(3) tr)
  from getTrees_world [OF g] obtain t where w2: "w2 = ?w1\<lparr>tmaps := t\<rparr>" by blast
  from k miss have nk: "\<not> tree_get (Some tr) (fsys fs) w2"
    by (simp add: tr tree_get_simps)
  let ?w3 = "upd p (\<lambda>x. x\<lparr>ai := None, mux := None\<rparr>) w2"
  have h3: "handles ?w3 p = Some (fs\<lparr>ai := None, mux := None\<rparr>)"
    by (simp add: w2 upd_def fs)
  have hg: "hangup (Some p) m ?w3 = ?w3\<lparr>hungup := insert m (hungup ?w3)\<rparr>"
    using nw by (intro hangup_no_watcher) (simp add: w2 upd_def)
  have "redial_trees env p m a w =
       Done (Some (Err (''no fsys '' @ [CHR 0x27] @ fsys fs @ [CHR 0x27] @ '' found in server'')),
             ?w3\<lparr>hungup := insert m (hungup ?w3)\<rparr>)"
    using nk by (simp add: redial_trees_def Let_def g h3 hg tr tree_get_simps)
  then show ?thesis
    by (auto simp: w2 upd_def fs)
qed

text \<open>
  C3. The handle satisfies the invariant of handles (it is closed, or its selected tree
  is known), the mux opens and the authentication passes or is disabled. If the tree
  directory then succeeds, every reply a string and the inbound half closed without
  error, and the selected tree is neither \<open>main\<close>, nor listed, nor known before, then
  \<open>Redial\<close> returns the error \<open>no fsys '<name>' found in server\<close> with the new mux
  closed; the dial cache is as it was, and the handle stays closed, without mux.
\<close>

theorem Redial_missing_tree:
  assumes fs: "handles w p = Some fs" and wf: "wf_world w" and tr: "trees fs = Some tr"
    and inv: "closed fs \<or> tree_get (trees fs) (fsys fs) w"
    and md: "muxdial env = None"
    and au: "snd (atclient env) = None
         \<or> (\<exists>t. snd (atclient env) = Some t \<and> Contains t ''auth disabled'')"
    and c1: "accepts (Out (treescall env))" and c2: "isclosed (In (treescall env))"
    and c3: "cerr (In (treescall env)) = None"
    and c4: "\<forall>m\<in>set (queue (In (treescall env))). \<exists>s. m = StrV s"
    and m1: "fsys fs \<noteq> ''main''" and m2: "StrV (fsys fs) \<notin> set (queue (In (treescall env)))"
    and m3: "\<not> tree_get (trees fs) (fsys fs) w"
  shows "\<exists>w'. Redial env p w =
       Done (Some (Err (''no fsys '' @ [CHR 0x27] @ fsys fs @ [CHR 0x27] @ '' found in server'')), w')
     \<and> nextid w \<in> hungup w' \<and> dials w' = dials w
     \<and> handles w' = (handles w)(p \<mapsto> fs\<lparr>ai := None, mux := None\<rparr>)"
proof -
  from inv m3 have cl: "closed fs" by simp
  obtain a aerr where atc: "atclient env = (a, aerr)" by (cases "atclient env")
  from wf have nw: "\<forall>t\<in>set (watchers w). fst t \<noteq> nextid w"
    by (auto simp: wf_world_def)
  have rt: "\<exists>w'. redial_trees env p (nextid w) a w2 =
       Done (Some (Err (''no fsys '' @ [CHR 0x27] @ fsys fs @ [CHR 0x27] @ '' found in server'')), w')
     \<and> nextid w \<in> hungup w' \<and> dials w' = dials w2 \<and> nextid w' = nextid w2 \<and> warns w' = warns w2
     \<and> handles w' = (handles w2)(p \<mapsto> fs\<lparr>ai := None, mux := None\<rparr>)"
    if "handles w2 = handles w" "tmaps w2 = tmaps w" "watchers w2 = watchers w" for w2
  proof (rule redial_trees_missing [OF _ tr _ c1 c2 c3 c4 m1 m2])
    show "handles w2 p = Some fs" using that fs by simp
    show "\<forall>t\<in>set (watchers w2). fst t \<noteq> nextid w" using that nw by simp
    show "\<not> tree_get (trees fs) (fsys fs) w2"
      using m3 tree_get_tmaps [OF that(2)] by simp
  qed
  show ?thesis
  proof (cases aerr)
    case None
    from rt [of "w\<lparr>nextid := nextid w + 1\<rparr>"] show ?thesis
      by (auto simp: Redial_closed [OF fs cl] md atc None)
  next
    case (Some t)
    with au atc have dis: "Contains t ''auth disabled''" by simp
    from rt [of "Warn (addr fs @ '': '' @ t) (w\<lparr>nextid := nextid w + 1\<rparr>)"]
    show ?thesis
      by (auto simp: Redial_closed [OF fs cl] md atc Some dis Warn_def)
  qed
qed

theorem Redial_missing_tree_witness:
  "map_run (\<lambda>(e, w'). (e, 4 \<in> hungup w', dials w' ''tcp!h!zx!nosuch''))
     (Redial env_ok 0 w_nosuch)
   = Done (Some (Err (''no fsys '' @ [CHR 0x27] @ ''nosuch'' @ [CHR 0x27] @ '' found in server'')),
       True, None)"
proof -
  have "\<exists>w'. Redial env_ok 0 w_nosuch =
       Done (Some (Err (''no fsys '' @ [CHR 0x27] @ fsys fs_nosuch @ [CHR 0x27] @ '' found in server'')), w')
     \<and> nextid w_nosuch \<in> hungup w' \<and> dials w' = dials w_nosuch
     \<and> handles w' = (handles w_nosuch)(0 \<mapsto> fs_nosuch\<lparr>ai := None, mux := None\<rparr>)"
    by (rule Redial_missing_tree [where tr = 1])
      (simp_all add: w_nosuch_def fs_nosuch_def env_ok_def c_trees_ok_def wf_world_def
        accepts_def make_chan_def tree_get_def)
  then show ?thesis
    by (auto simp: w_nosuch_def fs_nosuch_def)
qed

subsection \<open>Dial\<close>

lemma LastIndexByte_None: "(LastIndexByte s c = None) = (c \<notin> set s)"
  by (induction s) (auto split: option.splits)

lemma LastIndexByte_Some:
  "LastIndexByte s c = Some n \<Longrightarrow> take n s @ c # drop (Suc n) s = s"
  by (induction s arbitrary: n) (auto split: option.splits if_splits)

lemma FillAddr_has_sep: "CHR ''!'' \<in> set (FillAddr a)"
proof -
  have "0 < count_list a (CHR ''!'') \<Longrightarrow> CHR ''!'' \<in> set a"
    by (metis count_list_0_iff less_irrefl)
  then show ?thesis
    by (auto simp: FillAddr_def Let_def length_Split)
qed

lemma splitaddr_FillAddr:
  "\<exists>ad tree. splitaddr (FillAddr a) = Some (ad, tree) \<and> ad @ ''!'' @ tree = FillAddr a"
proof -
  from FillAddr_has_sep [of a] obtain n where n: "LastIndexByte (FillAddr a) (CHR ''!'') = Some n"
    using LastIndexByte_None [of "FillAddr a" "CHR ''!''"] by auto
  from LastIndexByte_Some [OF n] show ?thesis
    by (simp add: splitaddr_def n)
qed

lemma Redial_closed_fail:
  assumes fs: "handles w p = Some fs" and cl: "closed fs"
    and nw: "\<forall>t\<in>set (watchers w). fst t \<noteq> nextid w"
    and r: "Redial env p w = Done (Some e, w')"
  shows "dials w' = dials w \<and> (\<exists>fs'. handles w' p = Some fs' \<and> closed fs')"
proof (cases "muxdial env")
  case (Some err)
  with r fs cl show ?thesis by (simp add: Redial_closed [OF fs cl])
next
  case None
  obtain a aerr where au: "atclient env = (a, aerr)" by (cases "atclient env")
  have hn: "hangup (Some p) (nextid w) (w\<lparr>nextid := Suc (nextid w)\<rparr>)
      = w\<lparr>nextid := Suc (nextid w), hungup := insert (nextid w) (hungup w)\<rparr>"
    using nw by (subst hangup_no_watcher) simp_all
  have rt: "dials w' = dials w \<and> (\<exists>fs'. handles w' p = Some fs' \<and> closed fs')"
    if "redial_trees env p (nextid w) a w2 = Done (Some e, w')"
      and "handles w2 = handles w" "watchers w2 = watchers w" "dials w2 = dials w" for w2
    using redial_trees_fail [OF that(1)] that(2-4) nw fs cl by auto
  show ?thesis
  proof (cases aerr)
    case None
    with r \<open>muxdial env = None\<close> au have
      "redial_trees env p (nextid w) a (w\<lparr>nextid := nextid w + 1\<rparr>) = Done (Some e, w')"
      by (simp add: Redial_closed [OF fs cl])
    from rt [OF this] show ?thesis by simp
  next
    case (Some t)
    show ?thesis
    proof (cases "Contains t ''auth disabled''")
      case True
      with r \<open>muxdial env = None\<close> au Some have
        "redial_trees env p (nextid w) a (Warn (addr fs @ '': '' @ t) (w\<lparr>nextid := nextid w + 1\<rparr>))
          = Done (Some e, w')"
        by (simp add: Redial_closed [OF fs cl])
      from rt [OF this] show ?thesis by (simp add: Warn_simps)
    next
      case False
      with r \<open>muxdial env = None\<close> au Some fs cl show ?thesis
        by (auto simp: Redial_closed [OF fs cl] hn)
    qed
  qed
qed

lemma Redial_closed_ok:
  assumes fs: "handles w p = Some fs" and cl: "closed fs"
    and r: "Redial env p w = Done (None, w')"
  shows "dials w' = (dials w)(raddr fs \<mapsto> p)
     \<and> handles w' p = Some (fs\<lparr>ai := fst (atclient env), mux := Some (nextid w), closed := False\<rparr>)
     \<and> tree_get (trees fs) (fsys fs) w'"
proof -
  obtain a aerr where au: "atclient env = (a, aerr)" by (cases "atclient env")
  from r obtain w2 where rt: "redial_trees env p (nextid w) a w2 = Done (None, w')"
    and w2: "handles w2 = handles w" "dials w2 = dials w"
    by (auto simp: Redial_closed [OF fs cl] au Warn_simps split: option.splits if_splits)
  from redial_trees_ok [OF rt] w2 fs show ?thesis
    by (auto simp: au)
qed

text \<open>
  C4. \<open>Dial\<close> completes the address and returns the handle cached under it, if there is
  one, leaving the process as it is. Otherwise it makes a new handle, closed and
  without mux, whose raw address is the completed one, and calls \<open>Redial\<close> on it; its
  result is that of \<open>Redial\<close>. When \<open>Redial\<close> fails, the cache is as before and the new
  handle is nowhere in it; when \<open>Redial\<close> succeeds, the cache has the new handle, now
  open, under its raw address, and is otherwise as before.
\<close>

theorem Dial_cache:
  assumes wf: "wf_world w"
  shows "(\<forall>h. dials w (FillAddr addr0) = Some h \<longrightarrow> Dial env addr0 tls w = Done (Inr h, w))
     \<and> (dials w (FillAddr addr0) = None \<longrightarrow>
          (\<exists>fs0 w1. handles w1 = (handles w)(nextid w \<mapsto> fs0) \<and> dials w1 = dials w
             \<and> closed fs0 \<and> mux fs0 = None \<and> raddr fs0 = FillAddr addr0
             \<and> addr fs0 @ ''!'' @ fsys fs0 = FillAddr addr0
             \<and> Dial env addr0 tls w =
                 (case Redial env (nextid w) w1 of
                    Done (Some err, w2) \<Rightarrow> Done (Inl err, w2)
                  | Done (None, w2) \<Rightarrow> Done (Inr (nextid w), w2)
                  | Blocked \<Rightarrow> Blocked
                  | Panicked \<Rightarrow> Panicked)
             \<and> (\<forall>err w2. Redial env (nextid w) w1 = Done (Some err, w2) \<longrightarrow>
                   dials w2 = dials w \<and> (\<forall>k. dials w2 k \<noteq> Some (nextid w)))
             \<and> (\<forall>w2. Redial env (nextid w) w1 = Done (None, w2) \<longrightarrow>
                   dials w2 = (dials w)(FillAddr addr0 \<mapsto> nextid w)
                   \<and> (\<exists>fs2. handles w2 (nextid w) = Some fs2 \<and> \<not> closed fs2
                         \<and> raddr fs2 = FillAddr addr0))))"
proof (intro conjI impI allI)
  fix h
  assume "dials w (FillAddr addr0) = Some h"
  then show "Dial env addr0 tls w = Done (Inr h, w)"
    by (simp add: Dial_def dialed_def Let_def)
next
  assume miss: "dials w (FillAddr addr0) = None"
  from splitaddr_FillAddr [of addr0] obtain ad tree where
    sp: "splitaddr (FillAddr addr0) = Some (ad, tree)" and j: "ad @ ''!'' @ tree = FillAddr addr0"
    by blast
  let ?p = "nextid w"
  let ?fs0 = "\<lparr>Tag = ''rfs'', Verb = False, addr = ad, raddr = FillAddr addr0,
      tc = (case tls of [] \<Rightarrow> None | t # ts \<Rightarrow> Some t), ai = None,
      trees = Some (nextid w + 1), fsys = tree, mux = None, closed = True,
      closewc = nextid w + 2\<rparr>"
  let ?w1 = "w\<lparr>handles := (handles w)(?p \<mapsto> ?fs0), tmaps := (tmaps w)(nextid w + 1 := []),
      nextid := nextid w + 3\<rparr>"
  have d: "Dial env addr0 tls w =
      (case Redial env ?p ?w1 of
         Done (Some err, w2) \<Rightarrow> Done (Inl err, w2)
       | Done (None, w2) \<Rightarrow> Done (Inr ?p, w2)
       | Blocked \<Rightarrow> Blocked
       | Panicked \<Rightarrow> Panicked)"
    by (simp add: Dial_def dialed_def miss sp Let_def split: run.splits option.splits prod.splits)
  have h1: "handles ?w1 ?p = Some ?fs0" "closed ?fs0" by simp_all
  from wf have nw: "\<forall>t\<in>set (watchers ?w1). fst t \<noteq> nextid ?w1"
    by (auto simp: wf_world_def)
  from wf have fresh: "\<forall>k. dials w k \<noteq> Some ?p"
    by (auto simp: wf_world_def)
  have f: "dials w2 = dials w \<and> (\<forall>k. dials w2 k \<noteq> Some ?p)"
    if "Redial env ?p ?w1 = Done (Some err, w2)" for err w2
    using Redial_closed_fail [OF h1 nw that] fresh by simp
  have s: "dials w2 = (dials w)(FillAddr addr0 \<mapsto> ?p)
      \<and> (\<exists>fs2. handles w2 ?p = Some fs2 \<and> \<not> closed fs2 \<and> raddr fs2 = FillAddr addr0)"
    if "Redial env ?p ?w1 = Done (None, w2)" for w2
    using Redial_closed_ok [OF h1 that] by simp
  show "\<exists>fs0 w1. handles w1 = (handles w)(nextid w \<mapsto> fs0) \<and> dials w1 = dials w
             \<and> closed fs0 \<and> mux fs0 = None \<and> raddr fs0 = FillAddr addr0
             \<and> addr fs0 @ ''!'' @ fsys fs0 = FillAddr addr0
             \<and> Dial env addr0 tls w =
                 (case Redial env (nextid w) w1 of
                    Done (Some err, w2) \<Rightarrow> Done (Inl err, w2)
                  | Done (None, w2) \<Rightarrow> Done (Inr (nextid w), w2)
                  | Blocked \<Rightarrow> Blocked
                  | Panicked \<Rightarrow> Panicked)
             \<and> (\<forall>err w2. Redial env (nextid w) w1 = Done (Some err, w2) \<longrightarrow>
                   dials w2 = dials w \<and> (\<forall>k. dials w2 k \<noteq> Some (nextid w)))
             \<and> (\<forall>w2. Redial env (nextid w) w1 = Done (None, w2) \<longrightarrow>
                   dials w2 = (dials w)(FillAddr addr0 \<mapsto> nextid w)
                   \<and> (\<exists>fs2. handles w2 (nextid w) = Some fs2 \<and> \<not> closed fs2
                         \<and> raddr fs2 = FillAddr addr0))"
    apply (rule exI [of _ ?fs0], rule exI [of _ ?w1])
    using d f s j fresh by simp
qed

theorem Dial_cache_witness:
  "Dial env_ok ''h'' [] w_dialed = Done (Inr 0, w_dialed)
   \<and> map_run (\<lambda>(r, w'). (r, dials w' ''tcp!h!zx!main'')) (Dial env_ok ''h'' [] w_empty)
     = Done (Inr 0, Some 0)
   \<and> map_run (\<lambda>(r, w'). (r, dials w' ''tcp!h!zx!main'')) (Dial env_authfail ''h'' [] w_empty)
     = Done (Inl (Err ''tcp!h!zx: bad key''), None)"
proof -
  have wf: "wf_world w_dialed"
    by (simp add: wf_world_def w_dialed_def)
  have hit: "dials w_dialed (FillAddr ''h'') = Some 0"
    by (simp add: w_dialed_def FillAddr_def)
  from Dial_cache [OF wf, of "''h''" env_ok "[]"] hit
  have 1: "Dial env_ok ''h'' [] w_dialed = Done (Inr 0, w_dialed)"
    by blast
  have 2: "map_run (\<lambda>(r, w'). (r, dials w' ''tcp!h!zx!main'')) (Dial env_ok ''h'' [] w_empty)
     = Done (Inr 0, Some 0)"
    by (simp add: Dial_def FillAddr_def splitaddr_def dialed_def w_empty_def env_ok_def
        c_trees_ok_def run_defs)
  have 3: "map_run (\<lambda>(r, w'). (r, dials w' ''tcp!h!zx!main'')) (Dial env_authfail ''h'' [] w_empty)
     = Done (Inl (Err ''tcp!h!zx: bad key''), None)"
    by (simp add: Dial_def FillAddr_def splitaddr_def dialed_def w_empty_def env_authfail_def
        c_trees_ok_def run_defs)
  from 1 2 3 show ?thesis by simp
qed

text \<open>
  The missing tree through \<open>Dial\<close>: the address needs its four tokens, since an address
  of three tokens is completed with the tree \<open>main\<close>.
\<close>

lemma Dial_missing_tree_example:
  "map_run fst (Dial env_ok ''tcp!h!zx!nosuch'' [] w_empty)
     = Done (Inl (Err (''no fsys '' @ [CHR 0x27] @ ''nosuch'' @ [CHR 0x27] @ '' found in server'')))
   \<and> map_run (dials \<circ> snd) (Dial env_ok ''tcp!h!zx!nosuch'' [] w_empty) = Done (dials w_empty)
   \<and> FillAddr ''h!zx!nosuch'' = ''h!zx!nosuch!main''
   \<and> map_run fst (Dial env_ok ''h!zx!nosuch'' [] w_empty) = Done (Inr 0)"
  by (simp add: Dial_def FillAddr_def splitaddr_def dialed_def w_empty_def env_ok_def
      c_trees_ok_def run_defs)

text \<open>
  \<open>Redial\<close> on a handle that is still dialed holds the lock of the handle while it waits
  for the watcher, and the watcher needs that lock before it closes the close-wait
  channel: the call does not return.
\<close>

lemma Redial_open_handle_waits: "Redial env_ok 0 w_dialed = Blocked"
  by (simp add: w_dialed_def fs_main_def env_ok_def run_defs watcher_def)

end
